theory Spec2Isabelle
  imports Main
begin

section \<open>Job documents\<close>

text \<open>
  A timestamp is a BSON date: an integer number of milliseconds. The values of
  \<^verbatim>\<open>datetime.utcnow()\<close> are inputs of the model, one parameter for each call
  the source makes.
\<close>

type_synonym timestamp = int

text \<open>
  A document of the \<^verbatim>\<open>jobs\<close> collection, with the fields the controller writes:
  \<^verbatim>\<open>create_job\<close> writes the first five, acquisition adds \<^verbatim>\<open>worker_id\<close> and
  \<^verbatim>\<open>worker_heartbeat\<close>, \<^verbatim>\<open>finalize_job\<close> adds \<^verbatim>\<open>worker_exception\<close>. An absent field
  is \<open>None\<close>; \<^verbatim>\<open>worker_exception\<close> may also be present and null
  (\<open>Some None\<close>). The \<^verbatim>\<open>_id\<close> field is projected away by every read and left out.
\<close>

record doc =
  job_id :: string
  tag :: string
  args :: "(string \<times> string) list"
  version :: int
  status :: string
  worker_id :: "string option"
  worker_heartbeat :: "timestamp option"
  worker_exception :: "string option option"

text \<open>
  Modelled from the spec: the status constants \<^verbatim>\<open>AveryJob.IDLE\<close>, \<^verbatim>\<open>AveryJob.LOCKED\<close> and
  \<^verbatim>\<open>AveryJob.CANCELLED\<close> are declared in \<^verbatim>\<open>api.py\<close>, which is not among the sources. The
  spec names them as three status values of the public contract; a status is any string.
\<close>

definition IDLE :: string where
  "IDLE = ''IDLE''"

definition LOCKED :: string where
  "LOCKED = ''LOCKED''"

definition CANCELLED :: string where
  "CANCELLED = ''CANCELLED''"

text \<open>\<^verbatim>\<open>HEARTBEAT_TIMEOUT = timedelta(minutes=10)\<close>, in milliseconds.\<close>

definition HEARTBEAT_TIMEOUT :: int where
  "HEARTBEAT_TIMEOUT = 10 * 60 * 1000"

section \<open>The collection\<close>

text \<open>
  The collection is the list of its documents in the order the store scans them. The
  driver's operations are modelled from their documented behaviour: each acts on at
  most one document, the first that matches the filter.
\<close>

type_synonym store = "doc list"

datatype pymongo_error = AutoReconnect | DuplicateKeyError

text \<open>
  What happens to one request on the way to the store. \<^verbatim>\<open>AutoReconnect\<close> is raised when
  the connection is lost, before the request arrived (the store is untouched) or after
  the store has executed it (only the reply is lost).
\<close>

datatype net = Delivered | LostRequest | LostReply

fun coll_find_one :: "(doc \<Rightarrow> bool) \<Rightarrow> store \<Rightarrow> doc option" where
  "coll_find_one q [] = None"
| "coll_find_one q (d # ds) = (if q d then Some d else coll_find_one q ds)"

text \<open>With \<^verbatim>\<open>ReturnDocument.AFTER\<close>: the updated document is the reply.\<close>

fun coll_find_one_and_update :: "(doc \<Rightarrow> bool) \<Rightarrow> (doc \<Rightarrow> doc) \<Rightarrow> store \<Rightarrow> store \<times> doc option" where
  "coll_find_one_and_update q u [] = ([], None)"
| "coll_find_one_and_update q u (d # ds) =
     (if q d then (u d # ds, Some (u d))
      else (case coll_find_one_and_update q u ds of (ds', r) \<Rightarrow> (d # ds', r)))"

text \<open>The reply of \<^verbatim>\<open>delete_one\<close> is \<^verbatim>\<open>deleted_count\<close>.\<close>

fun coll_delete_one :: "(doc \<Rightarrow> bool) \<Rightarrow> store \<Rightarrow> store \<times> nat" where
  "coll_delete_one q [] = ([], 0)"
| "coll_delete_one q (d # ds) =
     (if q d then (ds, 1)
      else (case coll_delete_one q ds of (ds', n) \<Rightarrow> (d # ds', n)))"

text \<open>The unique index on \<^verbatim>\<open>job_id\<close> (\<^verbatim>\<open>_ensure_indexes\<close>) rejects a second document with the same key.\<close>

definition coll_insert_one :: "doc \<Rightarrow> store \<Rightarrow> store \<times> (pymongo_error + unit)" where
  "coll_insert_one d s =
     (if job_id d \<in> set (map job_id s) then (s, Inl DuplicateKeyError) else (s @ [d], Inr ()))"

definition jobs_find_one :: "net \<Rightarrow> (doc \<Rightarrow> bool) \<Rightarrow> store \<Rightarrow> pymongo_error + doc option" where
  "jobs_find_one n q s = (case n of Delivered \<Rightarrow> Inr (coll_find_one q s) | _ \<Rightarrow> Inl AutoReconnect)"

definition jobs_find_one_and_update ::
  "net \<Rightarrow> (doc \<Rightarrow> bool) \<Rightarrow> (doc \<Rightarrow> doc) \<Rightarrow> store \<Rightarrow> store \<times> (pymongo_error + doc option)" where
  "jobs_find_one_and_update n q u s =
     (case n of
        Delivered \<Rightarrow> (case coll_find_one_and_update q u s of (s', r) \<Rightarrow> (s', Inr r))
      | LostRequest \<Rightarrow> (s, Inl AutoReconnect)
      | LostReply \<Rightarrow> (fst (coll_find_one_and_update q u s), Inl AutoReconnect))"

definition jobs_delete_one :: "net \<Rightarrow> (doc \<Rightarrow> bool) \<Rightarrow> store \<Rightarrow> store \<times> (pymongo_error + nat)" where
  "jobs_delete_one n q s =
     (case n of
        Delivered \<Rightarrow> (case coll_delete_one q s of (s', c) \<Rightarrow> (s', Inr c))
      | LostRequest \<Rightarrow> (s, Inl AutoReconnect)
      | LostReply \<Rightarrow> (fst (coll_delete_one q s), Inl AutoReconnect))"

definition jobs_insert_one :: "net \<Rightarrow> doc \<Rightarrow> store \<Rightarrow> store \<times> (pymongo_error + unit)" where
  "jobs_insert_one n d s =
     (case n of
        Delivered \<Rightarrow> coll_insert_one d s
      | LostRequest \<Rightarrow> (s, Inl AutoReconnect)
      | LostReply \<Rightarrow> (fst (coll_insert_one d s), Inl AutoReconnect))"

section \<open>The controller\<close>

text \<open>
  The exceptions a call of the controller can end with: the two it declares, the
  \<^verbatim>\<open>AttributeError\<close> of \<^verbatim>\<open>doc.pop\<close> on \<^verbatim>\<open>None\<close>, the \<^verbatim>\<open>AssertionError\<close> of \<^verbatim>\<open>delete_job\<close>, and a
  driver exception no \<^verbatim>\<open>except\<close> clause catches.
\<close>

datatype error = RetriableError | ConcurrencyError | AttributeError | AssertionError
  | Uncaught pymongo_error

text \<open>
  Modelled from the spec: \<^verbatim>\<open>AveryJob\<close> is declared in \<^verbatim>\<open>api.py\<close>, which is not among the
  sources; the spec has it as a pure data container built from the identifier and the
  remaining fields of a document, so a job is represented by the document it is built from.
  What a method returns is \<open>None\<close> for Python's \<^verbatim>\<open>None\<close> and \<open>Some d\<close> for a job.
\<close>

type_synonym ret = "doc option"

text \<open>\<^verbatim>\<open>_job_from_doc\<close>: \<^verbatim>\<open>AveryJob(doc.pop('job_id'), **doc)\<close>; \<^verbatim>\<open>None\<close> has no \<^verbatim>\<open>pop\<close>.\<close>

definition job_from_doc :: "doc option \<Rightarrow> error + doc" where
  "job_from_doc r = (case r of None \<Rightarrow> Inl AttributeError | Some d \<Rightarrow> Inr d)"

text \<open>
  The keyword arguments of \<^verbatim>\<open>_update_job\<close> and the \<^verbatim>\<open>$set\<close> part of an acquisition: the
  assignments the controller issues. (\<^verbatim>\<open>job_id\<close> and \<^verbatim>\<open>version\<close> are positional parameters of
  \<^verbatim>\<open>_update_job\<close> and cannot occur among its keyword arguments.)
\<close>

datatype field_set =
    Set_status string
  | Set_worker_id string
  | Set_worker_heartbeat timestamp
  | Set_worker_exception "string option"

fun set_field :: "field_set \<Rightarrow> doc \<Rightarrow> doc" where
  "set_field (Set_status x) d = d\<lparr>status := x\<rparr>"
| "set_field (Set_worker_id x) d = d\<lparr>worker_id := Some x\<rparr>"
| "set_field (Set_worker_heartbeat x) d = d\<lparr>worker_heartbeat := Some x\<rparr>"
| "set_field (Set_worker_exception x) d = d\<lparr>worker_exception := Some x\<rparr>"

text \<open>The update document \<^verbatim>\<open>{'$inc': {'version': 1}, '$set': kwargs}\<close>.\<close>

definition inc_and_set :: "field_set list \<Rightarrow> doc \<Rightarrow> doc" where
  "inc_and_set kwargs d = fold set_field kwargs (d\<lparr>version := version d + 1\<rparr>)"

text \<open>The filter \<^verbatim>\<open>{'job_id': job_id, 'version': version}\<close>.\<close>

definition id_version_query :: "string \<Rightarrow> int \<Rightarrow> doc \<Rightarrow> bool" where
  "id_version_query jid v d = (job_id d = jid \<and> version d = v)"

text \<open>\<^verbatim>\<open>_update_job\<close>. It has no \<^verbatim>\<open>return\<close> statement: a call that does not raise returns \<^verbatim>\<open>None\<close>.\<close>

definition update_job :: "net \<Rightarrow> store \<Rightarrow> string \<Rightarrow> int \<Rightarrow> field_set list \<Rightarrow> store \<times> (error + ret)" where
  "update_job n s jid v kwargs =
     (case jobs_find_one_and_update n (id_version_query jid v) (inc_and_set kwargs) s of
        (s', Inl AutoReconnect) \<Rightarrow> (s', Inl RetriableError)
      | (s', Inl e) \<Rightarrow> (s', Inl (Uncaught e))
      | (s', Inr r) \<Rightarrow> (if r = None then (s', Inl ConcurrencyError) else (s', Inr None)))"

definition get_job :: "net \<Rightarrow> store \<Rightarrow> string \<Rightarrow> error + doc" where
  "get_job n s jid =
     (case jobs_find_one n (\<lambda>d. job_id d = jid) s of
        Inl AutoReconnect \<Rightarrow> Inl RetriableError
      | Inl e \<Rightarrow> Inl (Uncaught e)
      | Inr r \<Rightarrow> job_from_doc r)"

text \<open>\<^verbatim>\<open>args or {}\<close>: an absent or empty \<^verbatim>\<open>args\<close> is stored as the empty mapping.\<close>

definition new_doc :: "string \<Rightarrow> string \<Rightarrow> (string \<times> string) list option \<Rightarrow> doc" where
  "new_doc jid tg a =
     \<lparr>job_id = jid, tag = tg, args = (case a of None \<Rightarrow> [] | Some kv \<Rightarrow> kv),
      version = 0, status = IDLE,
      worker_id = None, worker_heartbeat = None, worker_exception = None\<rparr>"

definition create_job ::
  "net \<Rightarrow> store \<Rightarrow> string \<Rightarrow> string \<Rightarrow> (string \<times> string) list option \<Rightarrow> store \<times> (error + ret)" where
  "create_job n s jid tg a =
     (case jobs_insert_one n (new_doc jid tg a) s of
        (s', Inl AutoReconnect) \<Rightarrow> (s', Inl RetriableError)
      | (s', Inl DuplicateKeyError) \<Rightarrow> (s', Inr None)
      | (s', Inr _) \<Rightarrow> (s', Inr None))"

definition cancel_job :: "net \<Rightarrow> store \<Rightarrow> string \<Rightarrow> int \<Rightarrow> store \<times> (error + ret)" where
  "cancel_job n s jid v = update_job n s jid v [Set_status CANCELLED]"

definition delete_job :: "net \<Rightarrow> store \<Rightarrow> string \<Rightarrow> int \<Rightarrow> store \<times> (error + ret)" where
  "delete_job n s jid v =
     (case jobs_delete_one n (id_version_query jid v) s of
        (s', Inl AutoReconnect) \<Rightarrow> (s', Inl RetriableError)
      | (s', Inl e) \<Rightarrow> (s', Inl (Uncaught e))
      | (s', Inr c) \<Rightarrow>
          (if c = 0 then (s', Inl ConcurrencyError)
           else if c = 1 then (s', Inr None)
           else (s', Inl AssertionError)))"

text \<open>\<^verbatim>\<open>_find_one_and_update\<close>: a job when a document matched, \<^verbatim>\<open>None\<close> otherwise.\<close>

definition find_one_and_update ::
  "net \<Rightarrow> store \<Rightarrow> (doc \<Rightarrow> bool) \<Rightarrow> (doc \<Rightarrow> doc) \<Rightarrow> store \<times> (error + ret)" where
  "find_one_and_update n s query update =
     (case jobs_find_one_and_update n query update s of
        (s', Inl AutoReconnect) \<Rightarrow> (s', Inl RetriableError)
      | (s', Inl e) \<Rightarrow> (s', Inl (Uncaught e))
      | (s', Inr None) \<Rightarrow> (s', Inr None)
      | (s', Inr (Some r)) \<Rightarrow>
          (case job_from_doc (Some r) of Inl e \<Rightarrow> (s', Inl e) | Inr j \<Rightarrow> (s', Inr (Some j))))"

text \<open>The filter \<^verbatim>\<open>{'tag': {'$in': tags}, 'status': AveryJob.IDLE}\<close>.\<close>

definition idle_query :: "string list \<Rightarrow> doc \<Rightarrow> bool" where
  "idle_query tags d = (tag d \<in> set tags \<and> status d = IDLE)"

text \<open>
  The filter \<^verbatim>\<open>{'tag': {'$in': tags}, 'status': AveryJob.LOCKED, 'worker_heartbeat': {'$lt': t}}\<close>:
  a document without the field does not match \<^verbatim>\<open>$lt\<close>.
\<close>

definition stale_query :: "string list \<Rightarrow> timestamp \<Rightarrow> doc \<Rightarrow> bool" where
  "stale_query tags t d =
     (tag d \<in> set tags \<and> status d = LOCKED \<and>
      (case worker_heartbeat d of None \<Rightarrow> False | Some h \<Rightarrow> h < t))"

text \<open>The update both phases send.\<close>

definition lock_update :: "string \<Rightarrow> timestamp \<Rightarrow> doc \<Rightarrow> doc" where
  "lock_update wid now =
     inc_and_set [Set_status LOCKED, Set_worker_id wid, Set_worker_heartbeat now]"

text \<open>\<^verbatim>\<open>_try_acquire_idle_job\<close>; \<open>now\<close> is its reading of the clock.\<close>

definition try_acquire_idle_job ::
  "net \<Rightarrow> timestamp \<Rightarrow> store \<Rightarrow> string list \<Rightarrow> string \<Rightarrow> store \<times> (error + ret)" where
  "try_acquire_idle_job n now s tags wid =
     find_one_and_update n s (idle_query tags) (lock_update wid now)"

text \<open>
  \<^verbatim>\<open>_try_reacquire_locked_job\<close> reads the clock twice: \<open>now_q\<close> for the filter, \<open>now_u\<close> for
  the update.
\<close>

definition try_reacquire_locked_job ::
  "net \<Rightarrow> timestamp \<Rightarrow> timestamp \<Rightarrow> store \<Rightarrow> string list \<Rightarrow> string \<Rightarrow> store \<times> (error + ret)" where
  "try_reacquire_locked_job n now_q now_u s tags wid =
     find_one_and_update n s (stale_query tags (now_q - HEARTBEAT_TIMEOUT)) (lock_update wid now_u)"

text \<open>
  \<^verbatim>\<open>acquire_job\<close>. An exception of the first phase ends the call; the second phase runs
  when the first returned \<^verbatim>\<open>None\<close>.
\<close>

definition acquire_job ::
  "net \<Rightarrow> timestamp \<Rightarrow> net \<Rightarrow> timestamp \<Rightarrow> timestamp \<Rightarrow> store \<Rightarrow> string list \<Rightarrow> string
     \<Rightarrow> store \<times> (error + ret)" where
  "acquire_job n1 now1 n2 now_q now_u s tags wid =
     (case try_acquire_idle_job n1 now1 s tags wid of
        (s1, Inl e) \<Rightarrow> (s1, Inl e)
      | (s1, Inr (Some job)) \<Rightarrow> (s1, Inr (Some job))
      | (s1, Inr None) \<Rightarrow>
          (case try_reacquire_locked_job n2 now_q now_u s1 tags wid of
             (s2, Inl e) \<Rightarrow> (s2, Inl e)
           | (s2, Inr None) \<Rightarrow> (s2, Inr None)
           | (s2, Inr (Some job)) \<Rightarrow> (s2, Inr (Some job))))"

definition heartbeat_job :: "net \<Rightarrow> timestamp \<Rightarrow> store \<Rightarrow> string \<Rightarrow> int \<Rightarrow> store \<times> (error + ret)" where
  "heartbeat_job n now s jid v = update_job n s jid v [Set_worker_heartbeat now]"

definition finalize_job ::
  "net \<Rightarrow> store \<Rightarrow> string \<Rightarrow> int \<Rightarrow> string \<Rightarrow> string option \<Rightarrow> store \<times> (error + ret)" where
  "finalize_job n s jid v st worker_exc =
     update_job n s jid v [Set_status st, Set_worker_exception worker_exc]"

section \<open>Sequences of calls\<close>

text \<open>
  One call of a method of the controller, with what happens to each of its requests and
  the clock readings it takes.
\<close>

datatype op =
    Create net string string "(string \<times> string) list option"
  | Cancel net string int
  | Heartbeat net timestamp string int
  | Finalize net string int string "string option"
  | Acquire net timestamp net timestamp timestamp "string list" string
  | Delete net string int

fun step :: "store \<Rightarrow> op \<Rightarrow> store \<times> (error + ret)" where
  "step s (Create n jid tg a) = create_job n s jid tg a"
| "step s (Cancel n jid v) = cancel_job n s jid v"
| "step s (Heartbeat n now jid v) = heartbeat_job n now s jid v"
| "step s (Finalize n jid v st we) = finalize_job n s jid v st we"
| "step s (Acquire n1 now1 n2 now_q now_u tags wid) = acquire_job n1 now1 n2 now_q now_u s tags wid"
| "step s (Delete n jid v) = delete_job n s jid v"


text \<open>
  A successful mutation of job \<open>j\<close>, as its caller sees it: a cancel, heartbeat or finalize of
  \<open>j\<close> that returns without raising, or an acquisition that returns \<open>j\<close>.
\<close>

fun mutation_of :: "string \<Rightarrow> store \<Rightarrow> op \<Rightarrow> bool" where
  "mutation_of j s (Create n jid tg a) = False"
| "mutation_of j s (Cancel n jid v) = (jid = j \<and> snd (cancel_job n s jid v) = Inr None)"
| "mutation_of j s (Heartbeat n now jid v) = (jid = j \<and> snd (heartbeat_job n now s jid v) = Inr None)"
| "mutation_of j s (Finalize n jid v st we) = (jid = j \<and> snd (finalize_job n s jid v st we) = Inr None)"
| "mutation_of j s (Acquire n1 now1 n2 now_q now_u tags wid) =
     (case snd (acquire_job n1 now1 n2 now_q now_u s tags wid) of
        Inr (Some job) \<Rightarrow> job_id job = j
      | _ \<Rightarrow> False)"
| "mutation_of j s (Delete n jid v) = False"


fun is_delete_of :: "string \<Rightarrow> op \<Rightarrow> bool" where
  "is_delete_of j (Delete n jid v) = (jid = j)"
| "is_delete_of j _ = False"

text \<open>A call one of whose requests may have been executed by the store with its reply lost.\<close>

fun reply_lost :: "op \<Rightarrow> bool" where
  "reply_lost (Create n jid tg a) = (n = LostReply)"
| "reply_lost (Cancel n jid v) = (n = LostReply)"
| "reply_lost (Heartbeat n now jid v) = (n = LostReply)"
| "reply_lost (Finalize n jid v st we) = (n = LostReply)"
| "reply_lost (Acquire n1 now1 n2 now_q now_u tags wid) = (n1 = LostReply \<or> n2 = LostReply)"
| "reply_lost (Delete n jid v) = (n = LostReply)"

text \<open>The stored version of job \<open>j\<close>, if the job is stored.\<close>

definition job_version :: "string \<Rightarrow> store \<Rightarrow> int option" where
  "job_version j s = map_option version (coll_find_one (\<lambda>d. job_id d = j) s)"

section \<open>Concurrent acquisitions\<close>

text \<open>
  The controller holds no state of its own and each request is executed by the store
  atomically, so concurrent calls are interleavings of their requests. A call of
  \<^verbatim>\<open>acquire_job\<close> is given by its arguments and its three clock readings, and is at one of
  three points: before the idle claim, before the reclaim, or returned.
\<close>

record acall =
  c_tags :: "string list"
  c_wid :: string
  c_now1 :: timestamp
  c_now_q :: timestamp
  c_now_u :: timestamp

datatype pc = Phase1 | Phase2 | Returned "error + ret"

text \<open>The next request of a call of \<^verbatim>\<open>acquire_job\<close>, delivered.\<close>

fun acquire_step :: "store \<Rightarrow> acall \<Rightarrow> pc \<Rightarrow> store \<times> pc" where
  "acquire_step s c Phase1 =
     (case try_acquire_idle_job Delivered (c_now1 c) s (c_tags c) (c_wid c) of
        (s', Inr None) \<Rightarrow> (s', Phase2)
      | (s', r) \<Rightarrow> (s', Returned r))"
| "acquire_step s c Phase2 =
     (case try_reacquire_locked_job Delivered (c_now_q c) (c_now_u c) s (c_tags c) (c_wid c) of
        (s', r) \<Rightarrow> (s', Returned r))"
| "acquire_step s c (Returned r) = (s, Returned r)"

text \<open>
  Two calls \<open>a\<close> and \<open>b\<close> under a schedule: \<open>True\<close> lets \<open>a\<close> send its next request, \<open>False\<close>
  lets \<open>b\<close>.
\<close>

fun interleave :: "bool list \<Rightarrow> acall \<Rightarrow> acall \<Rightarrow> store \<times> pc \<times> pc \<Rightarrow> store \<times> pc \<times> pc" where
  "interleave [] a b st = st"
| "interleave (True # sch) a b (s, pa, pb) =
     (case acquire_step s a pa of (s', pa') \<Rightarrow> interleave sch a b (s', pa', pb))"
| "interleave (False # sch) a b (s, pa, pb) =
     (case acquire_step s b pb of (s', pb') \<Rightarrow> interleave sch a b (s', pa, pb'))"



section \<open>Facts about the collection\<close>

lemma coll_find_one_None_iff: "coll_find_one q s = None \<longleftrightarrow> (\<forall>x\<in>set s. \<not> q x)"
  by (induction s) auto

lemma coll_find_one_Some_split:
  "coll_find_one q s = Some d \<Longrightarrow> \<exists>pre post. s = pre @ d # post \<and> (\<forall>x\<in>set pre. \<not> q x) \<and> q d"
proof (induction s)
  case Nil
  then show ?case by simp
next
  case (Cons a s)
  show ?case
  proof (cases "q a")
    case True
    with Cons.prems have "a = d" by simp
    with True have "a # s = [] @ d # s \<and> (\<forall>x\<in>set []. \<not> q x) \<and> q d" by simp
    then show ?thesis by blast
  next
    case False
    with Cons obtain pre post where "s = pre @ d # post" "\<forall>x\<in>set pre. \<not> q x" "q d" by auto
    with False have "a # s = (a # pre) @ d # post \<and> (\<forall>x\<in>set (a # pre). \<not> q x) \<and> q d" by simp
    then show ?thesis by blast
  qed
qed

lemma coll_find_one_first: "\<forall>x\<in>set pre. \<not> q x \<Longrightarrow> q d \<Longrightarrow> coll_find_one q (pre @ d # post) = Some d"
  by (induction pre) auto

lemma coll_find_one_append:
  "coll_find_one q (xs @ ys) = (case coll_find_one q xs of None \<Rightarrow> coll_find_one q ys | Some d \<Rightarrow> Some d)"
  by (induction xs) auto

lemma fou_miss: "\<forall>x\<in>set s. \<not> q x \<Longrightarrow> coll_find_one_and_update q u s = (s, None)"
  by (induction s) auto

lemma fou_hit:
  "\<forall>x\<in>set pre. \<not> q x \<Longrightarrow> q d \<Longrightarrow>
   coll_find_one_and_update q u (pre @ d # post) = (pre @ u d # post, Some (u d))"
  by (induction pre) auto

lemma fou_reply: "snd (coll_find_one_and_update q u s) = map_option u (coll_find_one q s)"
  by (induction s) (auto split: prod.splits)

lemma coll_delete_one_hit:
  "\<forall>x\<in>set pre. \<not> q x \<Longrightarrow> q d \<Longrightarrow> coll_delete_one q (pre @ d # post) = (pre @ post, 1)"
  by (induction pre) auto

lemma coll_delete_one_miss: "\<forall>x\<in>set s. \<not> q x \<Longrightarrow> coll_delete_one q s = (s, 0)"
  by (induction s) auto

lemma coll_delete_one_count:
  "snd (coll_delete_one q s) \<le> 1 \<and> length (fst (coll_delete_one q s)) + snd (coll_delete_one q s) = length s"
  by (induction s) (auto split: prod.splits)

lemma coll_delete_one_cases:
  "fst (coll_delete_one q s) = s \<or>
   (\<exists>pre m post. s = pre @ m # post \<and> q m \<and> fst (coll_delete_one q s) = pre @ post)"
proof (cases "coll_find_one q s")
  case None
  then show ?thesis by (simp add: coll_find_one_None_iff coll_delete_one_miss)
next
  case (Some m)
  from coll_find_one_Some_split [OF this] obtain pre post
    where "s = pre @ m # post" "\<forall>x\<in>set pre. \<not> q x" "q m" by blast
  with coll_delete_one_hit [of pre q m post] show ?thesis by fastforce
qed

section \<open>Facts about the controller's updates\<close>

lemma job_id_inc_and_set [simp]: "job_id (inc_and_set kw d) = job_id d"
proof -
  have "job_id (fold set_field kw e) = job_id e" for e
  proof (induction kw arbitrary: e)
    case Nil show ?case by simp
  next
    case (Cons a kw) show ?case by (cases a) (simp_all add: Cons.IH)
  qed
  then show ?thesis by (simp add: inc_and_set_def)
qed

lemma version_inc_and_set [simp]: "version (inc_and_set kw d) = version d + 1"
proof -
  have "version (fold set_field kw e) = version e" for e
  proof (induction kw arbitrary: e)
    case Nil show ?case by simp
  next
    case (Cons a kw) show ?case by (cases a) (simp_all add: Cons.IH)
  qed
  then show ?thesis by (simp add: inc_and_set_def)
qed

lemma lock_update_eq:
  "lock_update wid now d =
     d\<lparr>version := version d + 1, status := LOCKED, worker_id := Some wid, worker_heartbeat := Some now\<rparr>"
  by (simp add: lock_update_def inc_and_set_def)

lemma job_id_lock_update [simp]: "job_id (lock_update wid now d) = job_id d"
  by (simp add: lock_update_def)

lemma version_lock_update [simp]: "version (lock_update wid now d) = version d + 1"
  by (simp add: lock_update_def)

lemma status_lock_update [simp]: "status (lock_update wid now d) = LOCKED"
  by (simp add: lock_update_eq)

lemma heartbeat_lock_update [simp]: "worker_heartbeat (lock_update wid now d) = Some now"
  by (simp add: lock_update_eq)

lemma IDLE_neq_LOCKED [simp]: "IDLE \<noteq> LOCKED" "LOCKED \<noteq> IDLE"
  by (simp_all add: IDLE_def LOCKED_def)

lemma update_job_hit:
  assumes "\<forall>x\<in>set pre. \<not> id_version_query jid v x" "id_version_query jid v d"
  shows "update_job Delivered (pre @ d # post) jid v kw = (pre @ inc_and_set kw d # post, Inr None)"
  using assms by (simp add: update_job_def jobs_find_one_and_update_def fou_hit)

lemma find_one_and_update_Delivered:
  "find_one_and_update Delivered s q u = (case coll_find_one_and_update q u s of (s', r) \<Rightarrow> (s', Inr r))"
  by (simp add: find_one_and_update_def jobs_find_one_and_update_def job_from_doc_def
      split: prod.splits option.splits)

lemma find_one_and_update_hit:
  "\<forall>x\<in>set pre. \<not> q x \<Longrightarrow> q d \<Longrightarrow>
   find_one_and_update Delivered (pre @ d # post) q u = (pre @ u d # post, Inr (Some (u d)))"
  by (simp add: find_one_and_update_Delivered fou_hit)

lemma find_one_and_update_miss:
  "\<forall>x\<in>set s. \<not> q x \<Longrightarrow> find_one_and_update Delivered s q u = (s, Inr None)"
  by (simp add: find_one_and_update_Delivered fou_miss)

lemma find_one_and_update_Some:
  assumes "find_one_and_update n s q u = (s', Inr (Some j))"
  shows "\<exists>pre d post. s = pre @ d # post \<and> (\<forall>x\<in>set pre. \<not> q x) \<and> q d \<and> j = u d \<and> s' = pre @ j # post"
proof -
  from assms have n: "n = Delivered"
    by (cases n) (simp_all add: find_one_and_update_def jobs_find_one_and_update_def)
  with assms have c: "coll_find_one_and_update q u s = (s', Some j)"
    by (simp add: find_one_and_update_Delivered split: prod.splits)
  then have "coll_find_one q s \<noteq> None"
    using fou_reply [of q u s] by (cases "coll_find_one q s") auto
  then obtain d where "coll_find_one q s = Some d" by blast
  from coll_find_one_Some_split [OF this] obtain pre post
    where s: "s = pre @ d # post" and pre: "\<forall>x\<in>set pre. \<not> q x" and d: "q d" by blast
  from fou_hit [OF pre d, of u post] c s have "(s', Some j) = (pre @ u d # post, Some (u d))"
    by metis
  then have "s' = pre @ j # post" "j = u d" by auto
  with s pre d show ?thesis by blast
qed

lemma find_one_and_update_cases:
  assumes "find_one_and_update n s q u = (s', r)"
  shows "(s' = s \<and> (\<forall>j. r \<noteq> Inr (Some j))) \<or>
         (\<exists>pre d post. s = pre @ d # post \<and> (\<forall>x\<in>set pre. \<not> q x) \<and> q d \<and>
            s' = pre @ u d # post \<and> (r = Inr (Some (u d)) \<or> r = Inl RetriableError))"
proof (cases "coll_find_one q s")
  case None
  then have "coll_find_one_and_update q u s = (s, None)"
    by (simp add: coll_find_one_None_iff fou_miss)
  with assms show ?thesis
    by (cases n) (auto simp: find_one_and_update_def jobs_find_one_and_update_def)
next
  case (Some d)
  from coll_find_one_Some_split [OF this] obtain pre post
    where s: "s = pre @ d # post" and pre: "\<forall>x\<in>set pre. \<not> q x" and d: "q d" by blast
  from fou_hit [OF pre d, of u post] s
  have c: "coll_find_one_and_update q u s = (pre @ u d # post, Some (u d))" by simp
  have "s' = s \<and> (\<forall>j. r \<noteq> Inr (Some j)) \<or> s' = pre @ u d # post \<and> (r = Inr (Some (u d)) \<or> r = Inl RetriableError)"
    using assms c
    by (cases n) (auto simp: find_one_and_update_def jobs_find_one_and_update_def job_from_doc_def)
  with s pre d show ?thesis by blast
qed

lemma find_one_and_update_keeps:
  assumes r: "find_one_and_update n s q u = (s', r)"
    and d: "d \<in> set s" and nq: "\<not> q d" and dist: "distinct (map job_id s)"
    and u: "\<And>x. job_id (u x) = job_id x"
  shows "d \<in> set s' \<and> map job_id s' = map job_id s \<and> (\<forall>j. r = Inr (Some j) \<longrightarrow> job_id j \<noteq> job_id d)"
proof -
  from find_one_and_update_cases [OF r]
  consider "s' = s" "\<forall>j. r \<noteq> Inr (Some j)"
    | pre e post where "s = pre @ e # post" "q e" "s' = pre @ u e # post"
        "r = Inr (Some (u e)) \<or> r = Inl RetriableError"
    by blast
  then show ?thesis
  proof cases
    case 1
    with d show ?thesis by simp
  next
    case 2
    from 2(1,2) d nq have "d \<in> set pre \<or> d \<in> set post" by auto
    with dist 2(1) have "job_id e \<noteq> job_id d" by auto
    moreover from 2(1,2) d nq have "d \<in> set s'" using 2(3) by auto
    moreover have "map job_id s' = map job_id s" using 2(1,3) u by simp
    ultimately show ?thesis using 2(4) u by auto
  qed
qed

section \<open>Facts about versions\<close>

lemma job_version_replace:
  assumes "job_id m' = job_id m"
  shows "job_version j (pre @ m' # post) =
     (if job_id m = j \<and> job_version j pre = None then Some (version m') else job_version j (pre @ m # post))"
  using assms by (auto simp: job_version_def coll_find_one_append split: option.splits)

lemma job_version_None_iff: "job_version j s = None \<longleftrightarrow> j \<notin> set (map job_id s)"
  by (auto simp: job_version_def coll_find_one_None_iff)

lemma job_version_mid:
  assumes "distinct (map job_id (pre @ m # post))"
  shows "job_version (job_id m) (pre @ m # post) = Some (version m)"
proof -
  from assms have "job_id m \<notin> set (map job_id pre)" by auto
  then have "\<forall>x\<in>set pre. job_id x \<noteq> job_id m" by (metis image_eqI list.set_map)
  then have "coll_find_one (\<lambda>d. job_id d = job_id m) pre = None"
    by (simp add: coll_find_one_None_iff)
  then show ?thesis by (simp add: job_version_def coll_find_one_append)
qed

lemma job_version_member:
  assumes "distinct (map job_id s)" and "d \<in> set s"
  shows "job_version (job_id d) s = Some (version d)"
proof -
  from assms(2) obtain pre post where "s = pre @ d # post" by (auto simp: in_set_conv_decomp)
  with assms(1) job_version_mid [of pre d post] show ?thesis by simp
qed


lemma job_version_append_new:
  "job_version j s = Some v \<Longrightarrow> job_version j (s @ [d]) = Some v"
  by (auto simp: job_version_def coll_find_one_append)

text \<open>The effect of one conditional update on the version of job \<open>j\<close>.\<close>

lemma jobs_fou_version:
  assumes dist: "distinct (map job_id s)" and jv: "job_version j s = Some v"
    and uid: "\<And>x. job_id (u x) = job_id x" and uv: "\<And>x. version (u x) = version x + 1"
    and r: "jobs_find_one_and_update n q u s = (s', r)"
  shows "map job_id s' = map job_id s \<and>
         (r = Inr None \<longrightarrow> s' = s) \<and>
         (\<forall>m. r = Inr (Some m) \<longrightarrow> (\<exists>m0\<in>set s. q m0 \<and> m = u m0)) \<and>
         (\<forall>m. r = Inr (Some m) \<and> job_id m = j \<longrightarrow> job_version j s' = Some (v + 1)) \<and>
         (n \<noteq> LostReply \<and> \<not> (\<exists>m. r = Inr (Some m) \<and> job_id m = j) \<longrightarrow> job_version j s' = Some v) \<and>
         (job_version j s' = Some v \<or> job_version j s' = Some (v + 1))"
proof (cases "coll_find_one q s")
  case None
  then have "coll_find_one_and_update q u s = (s, None)"
    by (simp add: coll_find_one_None_iff fou_miss)
  with r jv show ?thesis
    by (cases n) (auto simp: jobs_find_one_and_update_def)
next
  case (Some m0)
  from coll_find_one_Some_split [OF this] obtain pre post
    where s: "s = pre @ m0 # post" and pre: "\<forall>x\<in>set pre. \<not> q x" and m0: "q m0" by blast
  let ?t = "pre @ u m0 # post"
  from fou_hit [OF pre m0, of u post] s
  have c: "coll_find_one_and_update q u s = (?t, Some (u m0))" by simp
  have ids: "map job_id ?t = map job_id s" using s uid by simp
  have hit: "job_version j ?t = Some (v + 1)" if "job_id m0 = j"
  proof -
    from dist s that have "job_version j s = Some (version m0)" using job_version_mid by blast
    with jv have "version m0 = v" by simp
    moreover from dist ids have "distinct (map job_id ?t)" by simp
    from job_version_mid [OF this] that uid have "job_version j ?t = Some (version (u m0))" by simp
    ultimately show ?thesis using uv by simp
  qed
  have other: "job_version j ?t = Some v" if "job_id m0 \<noteq> j"
    using job_version_replace [of "u m0" m0 j pre post] uid that jv s by simp
  have m0s: "m0 \<in> set s" using s by simp
  show ?thesis
  proof (cases n)
    case Delivered
    with r c have "s' = ?t" "r = Inr (Some (u m0))" by (auto simp: jobs_find_one_and_update_def)
    with ids hit other m0 m0s uid show ?thesis by (cases "job_id m0 = j") auto
  next
    case LostRequest
    with r have "s' = s" "r = Inl AutoReconnect" by (auto simp: jobs_find_one_and_update_def)
    with jv show ?thesis using LostRequest by simp
  next
    case LostReply
    with r c have "s' = ?t" "r = Inl AutoReconnect" by (auto simp: jobs_find_one_and_update_def)
    with ids hit other show ?thesis using LostReply by (cases "job_id m0 = j") auto
  qed
qed

lemma update_job_version:
  assumes dist: "distinct (map job_id s)" and jv: "job_version j s = Some v"
    and r: "update_job n s jid v0 kw = (s', r)"
  shows "map job_id s' = map job_id s \<and>
         (jid = j \<and> r = Inr None \<longrightarrow> job_version j s' = Some (v + 1)) \<and>
         (\<not> (jid = j \<and> r = Inr None) \<and> n \<noteq> LostReply \<longrightarrow> job_version j s' = Some v) \<and>
         (job_version j s' = Some v \<or> job_version j s' = Some (v + 1))"
proof -
  obtain s1 r1 where j1: "jobs_find_one_and_update n (id_version_query jid v0) (inc_and_set kw) s = (s1, r1)"
    by fastforce
  note e = jobs_fou_version [OF dist jv job_id_inc_and_set version_inc_and_set j1]
  from r j1 have s': "s' = s1"
    by (auto simp: update_job_def split: sum.splits pymongo_error.splits if_splits)
  from r j1 have ok: "r = Inr None \<longleftrightarrow> (\<exists>m. r1 = Inr (Some m))"
    by (auto simp: update_job_def split: sum.splits pymongo_error.splits if_splits)
  have tgt: "job_id m = jid" if "r1 = Inr (Some m)" for m
  proof -
    from e that obtain m0 where "id_version_query jid v0 m0" "m = inc_and_set kw m0" by blast
    then show ?thesis by (simp add: id_version_query_def)
  qed
  show ?thesis
  proof (cases "\<exists>m. r1 = Inr (Some m)")
    case True
    then obtain m where m: "r1 = Inr (Some m)" by blast
    with tgt have "job_id m = jid" by simp
    with e m ok s' show ?thesis by auto
  next
    case False
    with e ok s' show ?thesis by auto
  qed
qed

lemma find_one_and_update_version:
  assumes dist: "distinct (map job_id s)" and jv: "job_version j s = Some v"
    and uid: "\<And>x. job_id (u x) = job_id x" and uv: "\<And>x. version (u x) = version x + 1"
    and r: "find_one_and_update n s q u = (s', r)"
  shows "map job_id s' = map job_id s \<and>
         (r = Inr None \<longrightarrow> s' = s) \<and>
         (\<forall>m. r = Inr (Some m) \<and> job_id m = j \<longrightarrow> job_version j s' = Some (v + 1)) \<and>
         (n \<noteq> LostReply \<and> \<not> (\<exists>m. r = Inr (Some m) \<and> job_id m = j) \<longrightarrow> job_version j s' = Some v) \<and>
         (job_version j s' = Some v \<or> job_version j s' = Some (v + 1))"
proof -
  obtain s1 r1 where j1: "jobs_find_one_and_update n q u s = (s1, r1)" by fastforce
  note e = jobs_fou_version [OF dist jv uid uv j1]
  from r j1 have s': "s' = s1"
    by (auto simp: find_one_and_update_def job_from_doc_def
        split: sum.splits pymongo_error.splits option.splits)
  from r j1 have ok: "r = Inr x \<longleftrightarrow> r1 = Inr x" for x
    by (auto simp: find_one_and_update_def job_from_doc_def
        split: sum.splits pymongo_error.splits option.splits)
  from e s' ok show ?thesis by auto
qed

lemma acquire_job_version:
  assumes dist: "distinct (map job_id s)" and jv: "job_version j s = Some v"
    and r: "acquire_job n1 now1 n2 now_q now_u s tags wid = (s', r)"
  shows "map job_id s' = map job_id s \<and>
         (\<forall>m. r = Inr (Some m) \<and> job_id m = j \<longrightarrow> job_version j s' = Some (v + 1)) \<and>
         (n1 \<noteq> LostReply \<and> n2 \<noteq> LostReply \<and> \<not> (\<exists>m. r = Inr (Some m) \<and> job_id m = j)
            \<longrightarrow> job_version j s' = Some v) \<and>
         (job_version j s' = Some v \<or> job_version j s' = Some (v + 1))"
proof -
  obtain s1 r1 where i: "try_acquire_idle_job n1 now1 s tags wid = (s1, r1)" by fastforce
  note e1 = find_one_and_update_version [OF dist jv job_id_lock_update version_lock_update
      i [unfolded try_acquire_idle_job_def]]
  show ?thesis
  proof (cases "r1 = Inr None")
    case False
    with r i have "s' = s1" "r = r1"
      by (auto simp: acquire_job_def split: sum.splits option.splits)
    with e1 show ?thesis by auto
  next
    case True
    with e1 have s1: "s1 = s" by simp
    obtain s2 r2 where l: "try_reacquire_locked_job n2 now_q now_u s tags wid = (s2, r2)" by fastforce
    note e2 = find_one_and_update_version [OF dist jv job_id_lock_update version_lock_update
        l [unfolded try_reacquire_locked_job_def]]
    from r i l True s1 have "s' = s2" "r = r2"
      by (auto simp: acquire_job_def split: sum.splits option.splits)
    with e2 show ?thesis by auto
  qed
qed

lemma create_job_version:
  assumes dist: "distinct (map job_id s)" and jv: "job_version j s = Some v"
  shows "distinct (map job_id (fst (create_job n s jid tg a))) \<and>
         job_version j (fst (create_job n s jid tg a)) = Some v"
proof (cases "jid \<in> set (map job_id s)")
  case True
  then have "fst (create_job n s jid tg a) = s"
    by (cases n) (simp_all add: create_job_def jobs_insert_one_def coll_insert_one_def new_doc_def)
  with dist jv show ?thesis by simp
next
  case False
  then have "fst (create_job n s jid tg a) = s \<or> fst (create_job n s jid tg a) = s @ [new_doc jid tg a]"
    by (cases n) (simp_all add: create_job_def jobs_insert_one_def coll_insert_one_def new_doc_def)
  moreover have "distinct (map job_id (s @ [new_doc jid tg a]))"
    using False dist by (simp add: new_doc_def)
  ultimately show ?thesis using dist jv job_version_append_new by auto
qed

lemma delete_job_version:
  assumes dist: "distinct (map job_id s)" and jv: "job_version j s = Some v" and ne: "jid \<noteq> j"
  shows "distinct (map job_id (fst (delete_job n s jid v0))) \<and>
         job_version j (fst (delete_job n s jid v0)) = Some v"
proof -
  have f: "fst (delete_job n s jid v0) = s \<or>
           fst (delete_job n s jid v0) = fst (coll_delete_one (id_version_query jid v0) s)"
    by (cases n) (auto simp: delete_job_def jobs_delete_one_def split: prod.splits)
  from coll_delete_one_cases [of "id_version_query jid v0" s]
  consider "fst (coll_delete_one (id_version_query jid v0) s) = s"
    | pre m post where "s = pre @ m # post" "id_version_query jid v0 m"
        "fst (coll_delete_one (id_version_query jid v0) s) = pre @ post"
    by blast
  then show ?thesis
  proof cases
    case 1
    with f dist jv show ?thesis by auto
  next
    case 2
    from 2(2) ne have "job_id m \<noteq> j" by (simp add: id_version_query_def)
    with jv 2(1) have "job_version j (pre @ post) = Some v"
      by (auto simp: job_version_def coll_find_one_append split: option.splits)
    moreover from dist 2(1) have "distinct (map job_id (pre @ post))" by auto
    ultimately show ?thesis using f 2(3) dist jv by auto
  qed
qed

lemma step_version:
  assumes dist: "distinct (map job_id s)" and jv: "job_version j s = Some v"
    and nd: "\<not> is_delete_of j x"
  shows "distinct (map job_id (fst (step s x))) \<and>
         (mutation_of j s x \<longrightarrow> job_version j (fst (step s x)) = Some (v + 1)) \<and>
         (\<not> mutation_of j s x \<and> \<not> reply_lost x \<longrightarrow> job_version j (fst (step s x)) = Some v) \<and>
         (job_version j (fst (step s x)) = Some v \<or> job_version j (fst (step s x)) = Some (v + 1))"
proof (cases x)
  case (Create n jid tg a)
  with create_job_version [OF dist jv, of n jid tg a] show ?thesis by simp
next
  case (Cancel n jid v0)
  obtain s' r where c: "cancel_job n s jid v0 = (s', r)" by fastforce
  from update_job_version [OF dist jv c [unfolded cancel_job_def]] c Cancel dist
  show ?thesis by auto
next
  case (Heartbeat n now jid v0)
  obtain s' r where c: "heartbeat_job n now s jid v0 = (s', r)" by fastforce
  from update_job_version [OF dist jv c [unfolded heartbeat_job_def]] c Heartbeat dist
  show ?thesis by (auto split: sum.splits option.splits)
next
  case (Finalize n jid v0 st we)
  obtain s' r where c: "finalize_job n s jid v0 st we = (s', r)" by fastforce
  from update_job_version [OF dist jv c [unfolded finalize_job_def]] c Finalize dist
  show ?thesis by (auto split: sum.splits option.splits)
next
  case (Acquire n1 now1 n2 now_q now_u tags wid)
  obtain s' r where c: "acquire_job n1 now1 n2 now_q now_u s tags wid = (s', r)" by fastforce
  from acquire_job_version [OF dist jv c] c Acquire dist
  show ?thesis by (auto split: sum.splits option.splits)
next
  case (Delete n jid v0)
  with nd have "jid \<noteq> j" by simp
  from delete_job_version [OF dist jv this, of n v0] Delete show ?thesis by simp
qed



section \<open>Facts about interleaved acquisitions\<close>

text \<open>Two requests in a row are the call of \<^verbatim>\<open>acquire_job\<close>.\<close>

lemma acquire_job_as_steps:
  "interleave [True, True] a b (s, Phase1, pb) =
     (fst (acquire_job Delivered (c_now1 a) Delivered (c_now_q a) (c_now_u a) s (c_tags a) (c_wid a)),
      Returned (snd (acquire_job Delivered (c_now1 a) Delivered (c_now_q a) (c_now_u a) s (c_tags a) (c_wid a))),
      pb)"
proof -
  obtain s1 r1 where i: "try_acquire_idle_job Delivered (c_now1 a) s (c_tags a) (c_wid a) = (s1, r1)"
    by fastforce
  obtain s2 r2 where l: "try_reacquire_locked_job Delivered (c_now_q a) (c_now_u a) s1 (c_tags a) (c_wid a) = (s2, r2)"
    by fastforce
  show ?thesis
  proof (cases "r1 = Inr None")
    case True
    with i l show ?thesis
      by (auto simp: acquire_job_def split: sum.splits option.splits)
  next
    case False
    with i show ?thesis
      by (auto simp: acquire_job_def split: sum.splits option.splits)
  qed
qed









text \<open>The definitions a concrete call is evaluated with.\<close>

lemmas eval_defs = new_doc_def IDLE_def LOCKED_def CANCELLED_def HEARTBEAT_TIMEOUT_def
  acquire_job_def try_acquire_idle_job_def try_reacquire_locked_job_def find_one_and_update_def
  jobs_find_one_and_update_def job_from_doc_def idle_query_def stale_query_def lock_update_def
  inc_and_set_def update_job_def cancel_job_def heartbeat_job_def finalize_job_def
  id_version_query_def create_job_def jobs_insert_one_def coll_insert_one_def
  delete_job_def jobs_delete_one_def get_job_def jobs_find_one_def

section \<open>The atomic update\<close>

text \<open>
  C1, as amended. When the store holds a document \<open>d\<close> with the given \<^verbatim>\<open>job_id\<close> and exactly the
  given version (and \<^verbatim>\<open>job_id\<close> is unique), a delivered \<^verbatim>\<open>_update_job\<close> replaces \<open>d\<close> in place by \<open>d\<close>
  with the assignments applied and the version \<open>v + 1\<close>, and returns \<^verbatim>\<open>None\<close>: the updated
  document stays in the store and is not handed to the caller. \<^verbatim>\<open>cancel_job\<close>, \<^verbatim>\<open>heartbeat_job\<close> and
  \<^verbatim>\<open>finalize_job\<close> do so with their own assignments.
\<close>

theorem update_job_success:
  assumes "s = pre @ d # post" and "distinct (map job_id s)"
    and "job_id d = jid" and "version d = v"
  shows "update_job Delivered s jid v kwargs = (pre @ inc_and_set kwargs d # post, Inr None) \<and>
         version (inc_and_set kwargs d) = v + 1 \<and>
         job_id (inc_and_set kwargs d) = jid \<and>
         cancel_job Delivered s jid v =
           (pre @ d\<lparr>version := v + 1, status := CANCELLED\<rparr> # post, Inr None) \<and>
         heartbeat_job Delivered now s jid v =
           (pre @ d\<lparr>version := v + 1, worker_heartbeat := Some now\<rparr> # post, Inr None) \<and>
         finalize_job Delivered s jid v st we =
           (pre @ d\<lparr>version := v + 1, status := st, worker_exception := Some we\<rparr> # post, Inr None)"
proof -
  from assms(1,2) have "job_id d \<notin> job_id ` set pre" by auto
  then have pre: "\<forall>x\<in>set pre. job_id x \<noteq> job_id d" by (metis imageI)
  from pre assms(3) have nq: "\<forall>x\<in>set pre. \<not> id_version_query jid v x"
    by (simp add: id_version_query_def)
  from assms(3,4) have qd: "id_version_query jid v d" by (simp add: id_version_query_def)
  have u: "update_job Delivered (pre @ d # post) jid v kw = (pre @ inc_and_set kw d # post, Inr None)" for kw
    by (rule update_job_hit [OF nq qd])
  have "update_job Delivered s jid v kwargs = (pre @ inc_and_set kwargs d # post, Inr None)"
    using u assms(1) by simp
  moreover have "version (inc_and_set kwargs d) = v + 1" using assms(4) by simp
  moreover have "job_id (inc_and_set kwargs d) = jid" using assms(3) by simp
  moreover have "cancel_job Delivered s jid v =
             (pre @ d\<lparr>version := v + 1, status := CANCELLED\<rparr> # post, Inr None)"
    using u [of "[Set_status CANCELLED]"] assms(1,4) by (simp add: cancel_job_def inc_and_set_def)
  moreover have "heartbeat_job Delivered now s jid v =
             (pre @ d\<lparr>version := v + 1, worker_heartbeat := Some now\<rparr> # post, Inr None)"
    using u [of "[Set_worker_heartbeat now]"] assms(1,4) by (simp add: heartbeat_job_def inc_and_set_def)
  moreover have "finalize_job Delivered s jid v st we =
             (pre @ d\<lparr>version := v + 1, status := st, worker_exception := Some we\<rparr> # post, Inr None)"
    using u [of "[Set_status st, Set_worker_exception we]"] assms(1,4)
    by (simp add: finalize_job_def inc_and_set_def)
  ultimately show ?thesis by blast
qed

theorem update_job_success_witness:
  "update_job Delivered [new_doc ''a'' ''build'' None, new_doc ''b'' ''build'' None] ''b'' 0
       [Set_status ''done'', Set_worker_exception None] =
     ([new_doc ''a'' ''build'' None,
       inc_and_set [Set_status ''done'', Set_worker_exception None] (new_doc ''b'' ''build'' None)],
      Inr None) \<and>
   version (inc_and_set [Set_status ''done'', Set_worker_exception None] (new_doc ''b'' ''build'' None)) = 1 \<and>
   cancel_job Delivered [new_doc ''a'' ''build'' None, new_doc ''b'' ''build'' None] ''b'' 0 =
     ([new_doc ''a'' ''build'' None, (new_doc ''b'' ''build'' None)\<lparr>version := 1, status := CANCELLED\<rparr>],
      Inr None)"
proof -
  let ?a = "new_doc ''a'' ''build'' None" and ?b = "new_doc ''b'' ''build'' None"
  have h1: "[?a, ?b] = [?a] @ ?b # []" by simp
  have h2: "distinct (map job_id [?a, ?b])" by (simp add: new_doc_def)
  have h3: "job_id ?b = ''b''" by (simp add: new_doc_def)
  have h4: "version ?b = 0" by (simp add: new_doc_def)
  from update_job_success [OF h1 h2 h3 h4, of "[Set_status ''done'', Set_worker_exception None]" 0 "''x''" None]
  show ?thesis by simp
qed

text \<open>
  C1 as stated fails: on a store whose only document has \<^verbatim>\<open>job_id\<close> \<open>b\<close> and version 0, the
  delivered update at version 0 returns \<^verbatim>\<open>None\<close>, not the updated document.
\<close>

theorem update_job_returns_record_counterexample:
  "id_version_query ''b'' 0 (new_doc ''b'' ''build'' None) \<and>
   snd (update_job Delivered [new_doc ''b'' ''build'' None] ''b'' 0 [Set_status ''done'']) = Inr None \<and>
   snd (update_job Delivered [new_doc ''b'' ''build'' None] ''b'' 0 [Set_status ''done''])
     \<noteq> Inr (Some (inc_and_set [Set_status ''done''] (new_doc ''b'' ''build'' None)))"
  by (simp add: update_job_def jobs_find_one_and_update_def id_version_query_def new_doc_def)

text \<open>
  C2. A delivered \<^verbatim>\<open>_update_job\<close> raises \<^verbatim>\<open>ConcurrencyError\<close> exactly when no document has the
  given \<^verbatim>\<open>job_id\<close> and version, and \<^verbatim>\<open>ConcurrencyError\<close> is raised by delivered requests only; a
  request that meets a connection fault raises \<^verbatim>\<open>RetriableError\<close>; and when no document has the
  given \<^verbatim>\<open>job_id\<close> and version (the job is absent, or its version is another one), the store
  is left as it was, whatever happens to the request.
\<close>

theorem update_job_failure:
  "(n = Delivered \<longrightarrow>
      (snd (update_job n s jid v kwargs) = Inl ConcurrencyError
         \<longleftrightarrow> \<not> (\<exists>d\<in>set s. job_id d = jid \<and> version d = v))) \<and>
   (snd (update_job n s jid v kwargs) = Inl ConcurrencyError \<longrightarrow> n = Delivered) \<and>
   (n \<noteq> Delivered \<longrightarrow> snd (update_job n s jid v kwargs) = Inl RetriableError) \<and>
   (\<not> (\<exists>d\<in>set s. job_id d = jid \<and> version d = v) \<longrightarrow> fst (update_job n s jid v kwargs) = s)"
proof (cases "\<exists>d\<in>set s. job_id d = jid \<and> version d = v")
  case True
  then have "coll_find_one (id_version_query jid v) s \<noteq> None"
    by (simp add: coll_find_one_None_iff id_version_query_def)
  then have "snd (coll_find_one_and_update (id_version_query jid v) (inc_and_set kwargs) s) \<noteq> None"
    by (simp add: fou_reply)
  with True show ?thesis
    by (cases n) (auto simp: update_job_def jobs_find_one_and_update_def split: prod.splits)
next
  case False
  then have "\<forall>x\<in>set s. \<not> id_version_query jid v x" by (simp add: id_version_query_def)
  then have "coll_find_one_and_update (id_version_query jid v) (inc_and_set kwargs) s = (s, None)"
    by (rule fou_miss)
  with False show ?thesis
    by (cases n) (auto simp: update_job_def jobs_find_one_and_update_def)
qed

theorem update_job_failure_witness:
  "snd (update_job Delivered [new_doc ''b'' ''build'' None] ''b'' 3 [Set_status CANCELLED])
     = Inl ConcurrencyError \<and>
   fst (update_job Delivered [new_doc ''b'' ''build'' None] ''b'' 3 [Set_status CANCELLED])
     = [new_doc ''b'' ''build'' None] \<and>
   snd (update_job LostReply [new_doc ''b'' ''build'' None] ''b'' 0 [Set_status CANCELLED])
     = Inl RetriableError"
  using update_job_failure [of Delivered "[new_doc ''b'' ''build'' None]" "''b''" 3 "[Set_status CANCELLED]"]
    update_job_failure [of LostReply "[new_doc ''b'' ''build'' None]" "''b''" 0 "[Set_status CANCELLED]"]
  by (simp add: new_doc_def)

section \<open>Acquisition\<close>

text \<open>
  C3. \<^verbatim>\<open>acquire_job\<close> is two ordered phases. When the store has a document with a requested tag
  and status \<open>IDLE\<close>, the delivered idle claim takes the first such document \<open>d\<close>, stores and
  returns it with status \<open>LOCKED\<close>, \<^verbatim>\<open>worker_id\<close> the caller's, \<^verbatim>\<open>worker_heartbeat\<close> the caller's
  clock reading and the version incremented, whatever would have happened to the reclaim
  request. Whenever the idle phase does not return \<^verbatim>\<open>None\<close> (it returned a job or raised), the
  call is the idle phase alone: the reclaim phase does not run. When no document is idle
  with a requested tag, the call is the reclaim phase. When no document is idle with a
  requested tag and none is locked with a requested tag and a stale heartbeat, the call
  returns \<^verbatim>\<open>None\<close>, not an error, and leaves the store as it was.
\<close>

theorem acquire_job_two_phases:
  "(s = pre @ d # post \<and> (\<forall>x\<in>set pre. \<not> (tag x \<in> set tags \<and> status x = IDLE)) \<and>
      tag d \<in> set tags \<and> status d = IDLE \<longrightarrow>
    acquire_job Delivered now_i nr now_q now_u s tags wid =
      (pre @ d\<lparr>version := version d + 1, status := LOCKED, worker_id := Some wid,
                worker_heartbeat := Some now_i\<rparr> # post,
       Inr (Some (d\<lparr>version := version d + 1, status := LOCKED, worker_id := Some wid,
                worker_heartbeat := Some now_i\<rparr>)))) \<and>
   (snd (try_acquire_idle_job ni now_i s tags wid) \<noteq> Inr None \<longrightarrow>
    acquire_job ni now_i nr now_q now_u s tags wid = try_acquire_idle_job ni now_i s tags wid) \<and>
   ((\<forall>x\<in>set s. \<not> (tag x \<in> set tags \<and> status x = IDLE)) \<longrightarrow>
    acquire_job Delivered now_i nr now_q now_u s tags wid =
      try_reacquire_locked_job nr now_q now_u s tags wid) \<and>
   ((\<forall>x\<in>set s. \<not> (tag x \<in> set tags \<and> status x = IDLE)) \<and>
    (\<forall>x\<in>set s. \<not> (tag x \<in> set tags \<and> status x = LOCKED \<and>
        (\<exists>h. worker_heartbeat x = Some h \<and> h < now_q - HEARTBEAT_TIMEOUT))) \<longrightarrow>
    acquire_job Delivered now_i Delivered now_q now_u s tags wid = (s, Inr None))"
proof (intro conjI impI)
  assume a: "s = pre @ d # post \<and> (\<forall>x\<in>set pre. \<not> (tag x \<in> set tags \<and> status x = IDLE)) \<and>
      tag d \<in> set tags \<and> status d = IDLE"
  then have "\<forall>x\<in>set pre. \<not> idle_query tags x" "idle_query tags d"
    by (simp_all add: idle_query_def)
  from find_one_and_update_hit [OF this, of post "lock_update wid now_i"] a
  show "acquire_job Delivered now_i nr now_q now_u s tags wid =
      (pre @ d\<lparr>version := version d + 1, status := LOCKED, worker_id := Some wid,
                worker_heartbeat := Some now_i\<rparr> # post,
       Inr (Some (d\<lparr>version := version d + 1, status := LOCKED, worker_id := Some wid,
                worker_heartbeat := Some now_i\<rparr>)))"
    by (simp add: acquire_job_def try_acquire_idle_job_def lock_update_eq)
next
  assume "snd (try_acquire_idle_job ni now_i s tags wid) \<noteq> Inr None"
  then show "acquire_job ni now_i nr now_q now_u s tags wid = try_acquire_idle_job ni now_i s tags wid"
    by (cases "try_acquire_idle_job ni now_i s tags wid")
      (auto simp: acquire_job_def split: sum.splits option.splits)
next
  assume "\<forall>x\<in>set s. \<not> (tag x \<in> set tags \<and> status x = IDLE)"
  then have "\<forall>x\<in>set s. \<not> idle_query tags x" by (simp add: idle_query_def)
  from find_one_and_update_miss [OF this, of "lock_update wid now_i"]
  show "acquire_job Delivered now_i nr now_q now_u s tags wid =
      try_reacquire_locked_job nr now_q now_u s tags wid"
    by (cases "try_reacquire_locked_job nr now_q now_u s tags wid")
      (auto simp: acquire_job_def try_acquire_idle_job_def split: sum.splits option.splits)
next
  assume a: "(\<forall>x\<in>set s. \<not> (tag x \<in> set tags \<and> status x = IDLE)) \<and>
    (\<forall>x\<in>set s. \<not> (tag x \<in> set tags \<and> status x = LOCKED \<and>
        (\<exists>h. worker_heartbeat x = Some h \<and> h < now_q - HEARTBEAT_TIMEOUT)))"
  then have i: "\<forall>x\<in>set s. \<not> idle_query tags x" by (simp add: idle_query_def)
  from a have l: "\<forall>x\<in>set s. \<not> stale_query tags (now_q - HEARTBEAT_TIMEOUT) x"
    by (auto simp: stale_query_def split: option.splits)
  from find_one_and_update_miss [OF i, of "lock_update wid now_i"]
    find_one_and_update_miss [OF l, of "lock_update wid now_u"]
  show "acquire_job Delivered now_i Delivered now_q now_u s tags wid = (s, Inr None)"
    by (simp add: acquire_job_def try_acquire_idle_job_def try_reacquire_locked_job_def)
qed

theorem acquire_job_two_phases_witness:
  "acquire_job Delivered 1000 Delivered 1000 1000 [new_doc ''J1'' ''build'' None] [''build''] ''w1'' =
     ([(new_doc ''J1'' ''build'' None)\<lparr>version := 1, status := LOCKED, worker_id := Some ''w1'',
          worker_heartbeat := Some 1000\<rparr>],
      Inr (Some ((new_doc ''J1'' ''build'' None)\<lparr>version := 1, status := LOCKED, worker_id := Some ''w1'',
          worker_heartbeat := Some 1000\<rparr>))) \<and>
   acquire_job Delivered 2000 Delivered 2000 2000
     [(new_doc ''J1'' ''build'' None)\<lparr>version := 1, status := LOCKED, worker_id := Some ''w1'',
          worker_heartbeat := Some 1000\<rparr>] [''build''] ''w2'' =
     ([(new_doc ''J1'' ''build'' None)\<lparr>version := 1, status := LOCKED, worker_id := Some ''w1'',
          worker_heartbeat := Some 1000\<rparr>], Inr None)"
  using acquire_job_two_phases [where s = "[new_doc ''J1'' ''build'' None]" and pre = "[]"
      and d = "new_doc ''J1'' ''build'' None" and post = "[]" and tags = "[''build'']"
      and now_i = 1000 and ni = Delivered and nr = Delivered and now_q = 1000 and now_u = 1000 and wid = "''w1''"]
    acquire_job_two_phases [where s = "[(new_doc ''J1'' ''build'' None)\<lparr>version := 1, status := LOCKED,
          worker_id := Some ''w1'', worker_heartbeat := Some 1000\<rparr>]" and pre = "[]"
      and d = "new_doc ''J1'' ''build'' None" and post = "[]" and tags = "[''build'']"
      and now_i = 2000 and ni = Delivered and nr = Delivered and now_q = 2000 and now_u = 2000 and wid = "''w2''"]
  by (simp add: eval_defs)

text \<open>
  C4. Whenever the reclaim phase returns a job, the job comes from a stored document \<open>d\<close> with a
  requested tag, status \<open>LOCKED\<close> and a heartbeat \<open>h\<close> older than the caller's clock reading
  minus \<open>HEARTBEAT_TIMEOUT\<close>, which is ten minutes; so a locked job with a younger heartbeat is
  never returned. The job returned and stored is \<open>d\<close> with the caller's \<^verbatim>\<open>worker_id\<close>, a fresh
  heartbeat and the version incremented once; no other document changes.
\<close>

theorem reacquire_only_stale:
  assumes "try_reacquire_locked_job n now_q now_u s tags wid = (s', Inr (Some j))"
  shows "HEARTBEAT_TIMEOUT = 600000 \<and>
         (\<exists>pre d post h. s = pre @ d # post \<and>
            tag d \<in> set tags \<and> status d = LOCKED \<and> worker_heartbeat d = Some h \<and>
            h < now_q - HEARTBEAT_TIMEOUT \<and>
            j = d\<lparr>version := version d + 1, status := LOCKED, worker_id := Some wid,
                   worker_heartbeat := Some now_u\<rparr> \<and>
            s' = pre @ j # post)"
proof -
  from find_one_and_update_Some [OF assms [unfolded try_reacquire_locked_job_def]]
  obtain pre d post where s: "s = pre @ d # post"
    and d: "stale_query tags (now_q - HEARTBEAT_TIMEOUT) d"
    and j: "j = lock_update wid now_u d" and s': "s' = pre @ j # post" by blast
  from d obtain h where "tag d \<in> set tags" "status d = LOCKED" "worker_heartbeat d = Some h"
    "h < now_q - HEARTBEAT_TIMEOUT"
    by (auto simp: stale_query_def split: option.splits)
  with s j s' have "\<exists>pre d post h. s = pre @ d # post \<and>
            tag d \<in> set tags \<and> status d = LOCKED \<and> worker_heartbeat d = Some h \<and>
            h < now_q - HEARTBEAT_TIMEOUT \<and>
            j = d\<lparr>version := version d + 1, status := LOCKED, worker_id := Some wid,
                   worker_heartbeat := Some now_u\<rparr> \<and>
            s' = pre @ j # post"
    unfolding lock_update_eq by blast
  then show ?thesis by (simp add: HEARTBEAT_TIMEOUT_def)
qed

theorem reacquire_only_stale_witness:
  "try_reacquire_locked_job Delivered 601001 601002
     [(new_doc ''J1'' ''build'' None)\<lparr>version := 1, status := LOCKED, worker_id := Some ''w1'',
          worker_heartbeat := Some 1000\<rparr>] [''build''] ''w2'' =
     ([(new_doc ''J1'' ''build'' None)\<lparr>version := 2, status := LOCKED, worker_id := Some ''w2'',
          worker_heartbeat := Some 601002\<rparr>],
      Inr (Some ((new_doc ''J1'' ''build'' None)\<lparr>version := 2, status := LOCKED, worker_id := Some ''w2'',
          worker_heartbeat := Some 601002\<rparr>))) \<and>
   (1000 :: int) < 601001 - HEARTBEAT_TIMEOUT"
proof -
  have h: "try_reacquire_locked_job Delivered 601001 601002
     [(new_doc ''J1'' ''build'' None)\<lparr>version := 1, status := LOCKED, worker_id := Some ''w1'',
          worker_heartbeat := Some 1000\<rparr>] [''build''] ''w2'' =
     ([(new_doc ''J1'' ''build'' None)\<lparr>version := 2, status := LOCKED, worker_id := Some ''w2'',
          worker_heartbeat := Some 601002\<rparr>],
      Inr (Some ((new_doc ''J1'' ''build'' None)\<lparr>version := 2, status := LOCKED, worker_id := Some ''w2'',
          worker_heartbeat := Some 601002\<rparr>)))"
    by (simp add: eval_defs)
  from reacquire_only_stale [OF h] h show ?thesis
    by (simp add: HEARTBEAT_TIMEOUT_def)
qed

section \<open>Versions\<close>



section \<open>Sink states\<close>

text \<open>
  C6, as amended. A stored job whose status is neither \<open>IDLE\<close> nor \<open>LOCKED\<close> (\<open>CANCELLED\<close> is
  such a status, and so is every status \<^verbatim>\<open>finalize_job\<close> sets other than these two) is not
  selected by the idle claim, by the stale-lease reclaim or by \<^verbatim>\<open>acquire_job\<close>: the document
  stays in the store unchanged and the job returned, if any, is another one. Whatever its
  status, a job stays stored over every call that is not a deletion of it.
\<close>

theorem acquisition_skips_other_statuses:
  assumes "d \<in> set s" and "status d \<noteq> IDLE" and "status d \<noteq> LOCKED"
    and "distinct (map job_id s)"
  shows "CANCELLED \<noteq> IDLE \<and> CANCELLED \<noteq> LOCKED \<and>
     (\<forall>s' r. try_acquire_idle_job ni now_i s tags wid = (s', r) \<longrightarrow>
        d \<in> set s' \<and> (\<forall>j. r = Inr (Some j) \<longrightarrow> job_id j \<noteq> job_id d)) \<and>
     (\<forall>s' r. try_reacquire_locked_job nr now_q now_u s tags wid = (s', r) \<longrightarrow>
        d \<in> set s' \<and> (\<forall>j. r = Inr (Some j) \<longrightarrow> job_id j \<noteq> job_id d)) \<and>
     (\<forall>s' r. acquire_job ni now_i nr now_q now_u s tags wid = (s', r) \<longrightarrow>
        d \<in> set s' \<and> (\<forall>j. r = Inr (Some j) \<longrightarrow> job_id j \<noteq> job_id d)) \<and>
     (\<forall>x. \<not> is_delete_of (job_id d) x \<longrightarrow> job_id d \<in> set (map job_id (fst (step s x))))"
proof -
  have ni: "\<not> idle_query tg d" for tg using assms(2) by (simp add: idle_query_def)
  have nl: "\<not> stale_query tg t d" for tg t using assms(3) by (simp add: stale_query_def)
  have p1: "d \<in> set s' \<and> map job_id s' = map job_id s \<and> (\<forall>j. r = Inr (Some j) \<longrightarrow> job_id j \<noteq> job_id d)"
    if "try_acquire_idle_job ni now_i s tags wid = (s', r)" for s' r
    using find_one_and_update_keeps [OF that [unfolded try_acquire_idle_job_def] assms(1) ni assms(4)]
    by simp
  have p2: "d \<in> set s' \<and> map job_id s' = map job_id t \<and> (\<forall>j. r = Inr (Some j) \<longrightarrow> job_id j \<noteq> job_id d)"
    if "try_reacquire_locked_job nr now_q now_u t tags wid = (s', r)" "d \<in> set t" "distinct (map job_id t)"
    for s' r t
    using find_one_and_update_keeps [OF that(1) [unfolded try_reacquire_locked_job_def] that(2) nl that(3)]
    by simp
  have p3: "d \<in> set s' \<and> (\<forall>j. r = Inr (Some j) \<longrightarrow> job_id j \<noteq> job_id d)"
    if a: "acquire_job ni now_i nr now_q now_u s tags wid = (s', r)" for s' r
  proof -
    obtain s1 r1 where i: "try_acquire_idle_job ni now_i s tags wid = (s1, r1)" by fastforce
    note k1 = p1 [OF i]
    show ?thesis
    proof (cases "r1 = Inr None")
      case False
      with a i have "s' = s1" "r = r1"
        by (auto simp: acquire_job_def split: sum.splits option.splits)
      with k1 show ?thesis by simp
    next
      case True
      obtain s2 r2 where l: "try_reacquire_locked_job nr now_q now_u s1 tags wid = (s2, r2)" by fastforce
      from k1 assms(4) have "distinct (map job_id s1)" by simp
      from p2 [OF l _ this] k1 have k2: "d \<in> set s2 \<and> (\<forall>j. r2 = Inr (Some j) \<longrightarrow> job_id j \<noteq> job_id d)"
        by simp
      from a i l True have "s' = s2" "r = r2"
        by (auto simp: acquire_job_def split: sum.splits option.splits)
      with k2 show ?thesis by simp
    qed
  qed
  have p4: "job_id d \<in> set (map job_id (fst (step s x)))" if "\<not> is_delete_of (job_id d) x" for x
  proof -
    from step_version [OF assms(4) job_version_member [OF assms(4,1)] that]
    have "job_version (job_id d) (fst (step s x)) \<noteq> None" by auto
    then show ?thesis by (simp add: job_version_None_iff)
  qed
  have "CANCELLED \<noteq> IDLE \<and> CANCELLED \<noteq> LOCKED" by (simp add: CANCELLED_def IDLE_def LOCKED_def)
  with p1 p2 [OF _ assms(1) assms(4)] p3 p4 show ?thesis by blast
qed

theorem acquisition_skips_other_statuses_witness:
  "acquire_job Delivered 1000 Delivered 1000 1000
     [(new_doc ''J1'' ''build'' None)\<lparr>version := 1, status := CANCELLED\<rparr>] [''build''] ''w1'' =
     ([(new_doc ''J1'' ''build'' None)\<lparr>version := 1, status := CANCELLED\<rparr>], Inr None)"
  using acquisition_skips_other_statuses [where s = "[(new_doc ''J1'' ''build'' None)\<lparr>version := 1, status := CANCELLED\<rparr>]"
      and d = "(new_doc ''J1'' ''build'' None)\<lparr>version := 1, status := CANCELLED\<rparr>"
      and ni = Delivered and now_i = 1000 and nr = Delivered and now_q = 1000 and now_u = 1000
      and tags = "[''build'']" and wid = "''w1''"]
  by (simp add: eval_defs)

text \<open>
  C6 as stated fails: \<^verbatim>\<open>finalize_job\<close> accepts any status. Job \<open>J1\<close>, locked at version 1 and
  finalized with the status \<open>IDLE\<close>, is selected by the next idle claim.
\<close>

theorem finalize_idle_reacquired_counterexample:
  "fst (finalize_job Delivered
          [\<lparr>job_id = ''J1'', tag = ''build'', args = [], version = 1, status = LOCKED,
            worker_id = Some ''w1'', worker_heartbeat = Some 1000, worker_exception = None\<rparr>]
          ''J1'' 1 IDLE None) =
     [\<lparr>job_id = ''J1'', tag = ''build'', args = [], version = 2, status = IDLE,
       worker_id = Some ''w1'', worker_heartbeat = Some 1000, worker_exception = Some None\<rparr>] \<and>
   snd (try_acquire_idle_job Delivered 2000
          (fst (finalize_job Delivered
             [\<lparr>job_id = ''J1'', tag = ''build'', args = [], version = 1, status = LOCKED,
               worker_id = Some ''w1'', worker_heartbeat = Some 1000, worker_exception = None\<rparr>]
             ''J1'' 1 IDLE None))
          [''build''] ''w2'') =
     Inr (Some \<lparr>job_id = ''J1'', tag = ''build'', args = [], version = 3, status = LOCKED,
       worker_id = Some ''w2'', worker_heartbeat = Some 2000, worker_exception = Some None\<rparr>)"
  by (simp add: eval_defs)

section \<open>Creation, deletion, retrieval\<close>

text \<open>
  C7. For a \<^verbatim>\<open>job_id\<close> that is not stored, a delivered \<^verbatim>\<open>create_job\<close> appends a document with
  that \<^verbatim>\<open>job_id\<close>, the given tag, version 0 and status \<open>IDLE\<close>. For a \<^verbatim>\<open>job_id\<close> that is
  stored, it returns normally and leaves the store as it was. So two calls with the same
  \<^verbatim>\<open>job_id\<close> leave exactly one document with that \<^verbatim>\<open>job_id\<close>, the one the first call
  inserted. A delivered call never raises; a call whose request meets a connection fault
  raises \<^verbatim>\<open>RetriableError\<close>.
\<close>

theorem create_job_idempotent:
  "(jid \<notin> set (map job_id s) \<longrightarrow>
      create_job Delivered s jid tg a = (s @ [new_doc jid tg a], Inr None) \<and>
      fst (create_job Delivered (fst (create_job Delivered s jid tg a)) jid tg' a') = s @ [new_doc jid tg a] \<and>
      filter (\<lambda>d. job_id d = jid) (fst (create_job Delivered (fst (create_job Delivered s jid tg a)) jid tg' a'))
        = [new_doc jid tg a]) \<and>
   job_id (new_doc jid tg a) = jid \<and> tag (new_doc jid tg a) = tg \<and>
   version (new_doc jid tg a) = 0 \<and> status (new_doc jid tg a) = IDLE \<and>
   (jid \<in> set (map job_id s) \<longrightarrow> create_job Delivered s jid tg a = (s, Inr None)) \<and>
   (n \<noteq> Delivered \<longrightarrow> snd (create_job n s jid tg a) = Inl RetriableError) \<and>
   snd (create_job Delivered s jid tg a) = Inr None"
proof -
  have fresh: "create_job Delivered t jid x y = (t @ [new_doc jid x y], Inr None)"
    if "jid \<notin> set (map job_id t)" for t x y
    using that by (simp add: create_job_def jobs_insert_one_def coll_insert_one_def new_doc_def)
  have dup: "create_job Delivered t jid x y = (t, Inr None)"
    if "jid \<in> set (map job_id t)" for t x y
    using that by (simp add: create_job_def jobs_insert_one_def coll_insert_one_def new_doc_def)
  have twice: "fst (create_job Delivered (fst (create_job Delivered s jid tg a)) jid tg' a') = s @ [new_doc jid tg a]"
    if "jid \<notin> set (map job_id s)"
  proof -
    have "jid \<in> set (map job_id (s @ [new_doc jid tg a]))" by (simp add: new_doc_def)
    from dup [OF this] fresh [OF that] show ?thesis by simp
  qed
  have one: "filter (\<lambda>d. job_id d = jid) (s @ [new_doc jid tg a]) = [new_doc jid tg a]"
    if "jid \<notin> set (map job_id s)"
  proof -
    from that have "filter (\<lambda>d. job_id d = jid) s = []" by (induction s) auto
    then show ?thesis by (simp add: new_doc_def)
  qed
  have fault: "snd (create_job n s jid tg a) = Inl RetriableError" if "n \<noteq> Delivered"
    using that by (cases n) (simp_all add: create_job_def jobs_insert_one_def)
  have ok: "snd (create_job Delivered s jid tg a) = Inr None"
    using fresh [of s tg a] dup [of s tg a] by (cases "jid \<in> set (map job_id s)") simp_all
  show ?thesis using fresh [of s tg a] dup [of s tg a] twice one fault ok
    by (simp add: new_doc_def)
qed

theorem create_job_idempotent_witness:
  "fst (create_job Delivered (fst (create_job Delivered [] ''J1'' ''build'' None)) ''J1'' ''test'' None) =
     [new_doc ''J1'' ''build'' None] \<and>
   snd (create_job Delivered [new_doc ''J1'' ''build'' None] ''J1'' ''test'' None) = Inr None \<and>
   snd (create_job LostRequest [] ''J1'' ''build'' None) = Inl RetriableError"
  using create_job_idempotent [where s = "[]" and jid = "''J1''" and tg = "''build''" and a = None
      and tg' = "''test''" and a' = None and n = LostRequest]
    create_job_idempotent [where s = "[new_doc ''J1'' ''build'' None]" and jid = "''J1''" and tg = "''test''"
      and a = None and tg' = "''test''" and a' = None and n = LostRequest]
  by (simp add: eval_defs)

text \<open>
  C8. A delivered \<^verbatim>\<open>delete_job\<close> removes the document with the given \<^verbatim>\<open>job_id\<close> and version,
  and only that one; when no document has that \<^verbatim>\<open>job_id\<close> and version it raises
  \<^verbatim>\<open>ConcurrencyError\<close> and the store is left as it was, whatever happens to the request. A
  request that meets a connection fault raises \<^verbatim>\<open>RetriableError\<close>. The assertion on
  \<^verbatim>\<open>deleted_count\<close> never fails, and a call removes at most one document.
\<close>

theorem delete_job_contract:
  "(s = pre @ d # post \<and> (\<forall>x\<in>set pre. \<not> (job_id x = jid \<and> version x = v)) \<and>
      job_id d = jid \<and> version d = v \<longrightarrow>
      delete_job Delivered s jid v = (pre @ post, Inr None)) \<and>
   ((\<forall>x\<in>set s. \<not> (job_id x = jid \<and> version x = v)) \<longrightarrow>
      delete_job Delivered s jid v = (s, Inl ConcurrencyError) \<and> fst (delete_job n s jid v) = s) \<and>
   (n \<noteq> Delivered \<longrightarrow> snd (delete_job n s jid v) = Inl RetriableError) \<and>
   snd (delete_job n s jid v) \<noteq> Inl AssertionError \<and>
   length s \<le> length (fst (delete_job n s jid v)) + 1"
proof (intro conjI impI)
  assume a: "s = pre @ d # post \<and> (\<forall>x\<in>set pre. \<not> (job_id x = jid \<and> version x = v)) \<and>
      job_id d = jid \<and> version d = v"
  then have "\<forall>x\<in>set pre. \<not> id_version_query jid v x" "id_version_query jid v d"
    by (simp_all add: id_version_query_def)
  from coll_delete_one_hit [OF this, of post] a
  show "delete_job Delivered s jid v = (pre @ post, Inr None)"
    by (simp add: delete_job_def jobs_delete_one_def)
next
  assume "\<forall>x\<in>set s. \<not> (job_id x = jid \<and> version x = v)"
  then have "\<forall>x\<in>set s. \<not> id_version_query jid v x" by (simp add: id_version_query_def)
  note m = coll_delete_one_miss [OF this]
  from m show "delete_job Delivered s jid v = (s, Inl ConcurrencyError)"
    by (simp add: delete_job_def jobs_delete_one_def)
  from m show "fst (delete_job n s jid v) = s"
    by (cases n) (simp_all add: delete_job_def jobs_delete_one_def)
next
  assume "n \<noteq> Delivered"
  then show "snd (delete_job n s jid v) = Inl RetriableError"
    by (cases n) (simp_all add: delete_job_def jobs_delete_one_def)
next
  from coll_delete_one_count [of "id_version_query jid v" s]
  show "snd (delete_job n s jid v) \<noteq> Inl AssertionError"
    by (cases n) (auto simp: delete_job_def jobs_delete_one_def split: prod.splits)
next
  from coll_delete_one_count [of "id_version_query jid v" s]
  show "length s \<le> length (fst (delete_job n s jid v)) + 1"
    by (cases n) (auto simp: delete_job_def jobs_delete_one_def split: prod.splits)
qed

theorem delete_job_contract_witness:
  "delete_job Delivered [new_doc ''J1'' ''build'' None] ''J1'' 0 = ([], Inr None) \<and>
   delete_job Delivered [] ''J1'' 0 = ([], Inl ConcurrencyError) \<and>
   delete_job Delivered [new_doc ''J1'' ''build'' None] ''J1'' 1 =
     ([new_doc ''J1'' ''build'' None], Inl ConcurrencyError) \<and>
   snd (delete_job LostReply [new_doc ''J1'' ''build'' None] ''J1'' 0) = Inl RetriableError"
  using delete_job_contract [where s = "[new_doc ''J1'' ''build'' None]" and pre = "[]"
      and d = "new_doc ''J1'' ''build'' None" and post = "[]" and jid = "''J1''" and v = 0 and n = LostReply]
    delete_job_contract [where s = "[]" and pre = "[]" and d = "new_doc ''J1'' ''build'' None"
      and post = "[]" and jid = "''J1''" and v = 0 and n = Delivered]
    delete_job_contract [where s = "[new_doc ''J1'' ''build'' None]" and pre = "[]"
      and d = "new_doc ''J1'' ''build'' None" and post = "[]" and jid = "''J1''" and v = 1 and n = Delivered]
  by (simp add: eval_defs)

text \<open>
  C9. A delivered \<^verbatim>\<open>get_job\<close> returns the stored job with the given \<^verbatim>\<open>job_id\<close>; a request that
  meets a connection fault raises \<^verbatim>\<open>RetriableError\<close>; and when no document has the \<^verbatim>\<open>job_id\<close>
  the call returns no job: it raises the \<^verbatim>\<open>AttributeError\<close> of \<^verbatim>\<open>_job_from_doc\<close> on \<^verbatim>\<open>None\<close>.
\<close>

theorem get_job_contract:
  "(s = pre @ d # post \<and> (\<forall>x\<in>set pre. job_id x \<noteq> jid) \<and> job_id d = jid \<longrightarrow>
      get_job Delivered s jid = Inr d) \<and>
   (n \<noteq> Delivered \<longrightarrow> get_job n s jid = Inl RetriableError) \<and>
   ((\<forall>x\<in>set s. job_id x \<noteq> jid) \<longrightarrow> get_job Delivered s jid = Inl AttributeError)"
proof (intro conjI impI)
  assume a: "s = pre @ d # post \<and> (\<forall>x\<in>set pre. job_id x \<noteq> jid) \<and> job_id d = jid"
  then have "coll_find_one (\<lambda>x. job_id x = jid) (pre @ d # post) = Some d"
    by (intro coll_find_one_first) simp_all
  with a show "get_job Delivered s jid = Inr d"
    by (simp add: get_job_def jobs_find_one_def job_from_doc_def)
next
  assume "n \<noteq> Delivered"
  then show "get_job n s jid = Inl RetriableError"
    by (cases n) (simp_all add: get_job_def jobs_find_one_def)
next
  assume "\<forall>x\<in>set s. job_id x \<noteq> jid"
  then have "coll_find_one (\<lambda>x. job_id x = jid) s = None" by (simp add: coll_find_one_None_iff)
  then show "get_job Delivered s jid = Inl AttributeError"
    by (simp add: get_job_def jobs_find_one_def job_from_doc_def)
qed

theorem get_job_contract_witness:
  "get_job Delivered [new_doc ''J1'' ''build'' None] ''J1'' = Inr (new_doc ''J1'' ''build'' None) \<and>
   get_job LostRequest [new_doc ''J1'' ''build'' None] ''J1'' = Inl RetriableError \<and>
   get_job Delivered [new_doc ''J1'' ''build'' None] ''J2'' = Inl AttributeError"
  using get_job_contract [where s = "[new_doc ''J1'' ''build'' None]" and pre = "[]"
      and d = "new_doc ''J1'' ''build'' None" and post = "[]" and jid = "''J1''" and n = LostRequest]
    get_job_contract [where s = "[new_doc ''J1'' ''build'' None]" and pre = "[]"
      and d = "new_doc ''J1'' ''build'' None" and post = "[]" and jid = "''J2''" and n = Delivered]
  by (simp add: eval_defs)

section \<open>Mutual exclusion\<close>



end
